theory Spec2Isabelle
  imports Main "HOL-Library.Word"
begin

unbundle bit_operations_syntax

section \<open>Data model of esp32\_can\_library.h\<close>

text \<open>
  The library is one C++ class, \<open>CANBus\<close>. Its integers are \<open>uint8_t\<close> and \<open>uint32_t\<close>,
  modelled as 8-bit and 32-bit words. \<open>esp_err_t\<close> is the driver's integer status
  (\<open>ESP_OK\<close> is 0, \<open>ESP_FAIL\<close> is -1). A \<open>steady_clock::time_point\<close> is the count of
  nanoseconds since the clock's epoch (the tick of libstdc++'s steady clock); a
  default-constructed one is the epoch itself, 0.
\<close>

type_synonym u8 = "8 word"
type_synonym u32 = "32 word"
type_synonym esp_err_t = int
type_synonym time_point = int

definition ESP_OK :: esp_err_t where [simp]: "ESP_OK = 0"
definition ESP_FAIL :: esp_err_t where [simp]: "ESP_FAIL = - 1"

text \<open>\<open>enum Sequence : uint8_t { START=0, MIDDLE=1, END=2, SINGLE=3 }\<close> and the two constants.\<close>

definition START :: u8 where [simp]: "START = 0"
definition MIDDLE :: u8 where [simp]: "MIDDLE = 1"
definition END :: u8 where [simp]: "END = 2"
definition SINGLE :: u8 where [simp]: "SINGLE = 3"

definition REASSEMBLY_TIMEOUT :: int where [simp]: "REASSEMBLY_TIMEOUT = 500"
definition ACK_TYPE_ID :: u8 where [simp]: "ACK_TYPE_ID = 0x7"

text \<open>
  \<open>twai_message_t\<close>: the identifier, the data length code and the data array, which has
  8 cells (\<open>m_data\<close> is that array; a frame built with \<open>twai_message_t m{}\<close> has every
  cell 0 before \<open>memcpy\<close> fills the first \<open>m_data_length_code\<close> of them). The flags
  (\<open>extd\<close> is set to 0 everywhere) play no role in the protocol and are left out.
\<close>

record twai_message =
  m_identifier :: u32
  m_data_length_code :: u8
  m_data :: "u8 list"

text \<open>\<open>struct FragEntry { std::vector<uint8_t> data; time_point timestamp; }\<close>\<close>

record FragEntry =
  entry_data :: "u8 list"
  timestamp :: time_point

text \<open>
  What the library does to the outside is recorded as a trace of events: a call of
  \<open>twai_transmit\<close> with a frame, a call of a receive callback registered with
  \<open>onReceive\<close> (identified by a number given at registration) with the bytes of the
  message object it is handed, and a call of the error callback with (type, address).
\<close>

datatype event =
  Transmit twai_message
| HandlerCall nat "u8 list"
| ErrorCall nat u8 u8

text \<open>
  The members of \<open>CANBus\<close> that the protocol uses (\<open>retryLimit_\<close>, \<open>errorCb_\<close>,
  \<open>pendingAck_\<close>, \<open>fragMap_\<close>, \<open>handlers_\<close>; the trailing underscore is not
  available for a field name here). A value of \<open>handlers\<close> is the lambda
  that \<open>onReceive<T>\<close> stores: it captures \<open>sizeof(T)\<close> and the user's callback.
  \<open>errorCb\<close> is \<open>None\<close> for the null \<open>std::function\<close>.
\<close>

record CANBus =
  retryLimit :: u8
  errorCb :: "nat option"
  pendingAck :: u8
  fragMap :: "u32 \<rightharpoonup> FragEntry"
  handlers :: "u8 \<rightharpoonup> (nat \<times> nat)"

text \<open>The constructor: \<open>retryLimit_(3), errorCb_(nullptr)\<close>, \<open>pendingAck_ = 0\<close>, empty maps.\<close>

definition CANBus_new :: CANBus where
  "CANBus_new = \<lparr>retryLimit = 3, errorCb = None, pendingAck = 0,
                 fragMap = Map.empty, handlers = Map.empty\<rparr>"

definition setRetryLimit :: "u8 \<Rightarrow> CANBus \<Rightarrow> CANBus" where
  "setRetryLimit n s = s\<lparr>retryLimit := n\<rparr>"

definition onError :: "nat \<Rightarrow> CANBus \<Rightarrow> CANBus" where
  "onError cb s = s\<lparr>errorCb := Some cb\<rparr>"

section \<open>Identifier codec\<close>

text \<open>
  \<open>buildId\<close>: every field is masked to its width, widened to 32 bits and shifted into place.
\<close>

definition buildId :: "u8 \<Rightarrow> u8 \<Rightarrow> u8 \<Rightarrow> u8 \<Rightarrow> u32" where
  "buildId prio addr seq type =
     (push_bit 9 (ucast (prio AND 0x03) :: u32) OR
      push_bit 5 (ucast (addr AND 0x0F) :: u32) OR
      push_bit 3 (ucast (seq AND 0x03) :: u32) OR
      (ucast (type AND 0x07) :: u32))"

text \<open>
  The three fields that \<open>handleReceive\<close> reads from a received identifier, named after its
  local variables: \<open>seq = (id >> 3) & 0x03\<close>, \<open>type = id & 0x07\<close>, \<open>from = (id >> 5) & 0x0F\<close>,
  each truncated to \<open>uint8_t\<close>.
\<close>

definition id_seq :: "u32 \<Rightarrow> u8" where
  "id_seq ident = ucast (drop_bit 3 ident AND 0x03)"

definition id_type :: "u32 \<Rightarrow> u8" where
  "id_type ident = ucast (ident AND 0x07)"

definition id_from :: "u32 \<Rightarrow> u8" where
  "id_from ident = ucast (drop_bit 5 ident AND 0x0F)"

text \<open>
  Modelled from the spec: the priority field of \<open>decode\<close>. The code never reads the
  priority of a received identifier; the spec's decode is "inverse masks/shifts", so the
  2 bits above bit 9.
\<close>

definition id_prio :: "u32 \<Rightarrow> u8" where
  "id_prio ident = ucast (drop_bit 9 ident AND 0x03)"

text \<open>
  Modelled from the spec: \<open>decode(id) -> {priority, address, sequence, type}\<close>. The code
  has no such function; the tuple puts together the three reads of \<open>handleReceive\<close> and
  the priority read above.
\<close>

definition decode :: "u32 \<Rightarrow> u8 \<times> u8 \<times> u8 \<times> u8" where
  "decode ident = (id_prio ident, id_from ident, id_seq ident, id_type ident)"

section \<open>Checksum\<close>

text \<open>
  \<open>crc8(data, len)\<close>: the inner loop \<open>for (int j = 0; j < 8; ++j)\<close> and the outer loop
  \<open>for (size_t i = 0; i < len; ++i)\<close>, each as a recursion on its counter. The C expression
  \<open>(crc << 1) ^ 0x31\<close> is computed in \<open>int\<close> and truncated by the assignment to the
  \<open>uint8_t\<close>, which is the shift and XOR on the 8-bit word.
\<close>

function crc8_bits :: "int \<Rightarrow> u8 \<Rightarrow> u8" where
  "crc8_bits j crc =
     (if j < 8
      then crc8_bits (j + 1) (if crc AND 0x80 \<noteq> 0 then push_bit 1 crc XOR 0x31 else push_bit 1 crc)
      else crc)"
  by pat_completeness auto
termination
  by (relation "measure (\<lambda>(j, crc). nat (8 - j))") auto

declare crc8_bits.simps [simp del]

function crc8_bytes :: "u8 list \<Rightarrow> nat \<Rightarrow> nat \<Rightarrow> u8 \<Rightarrow> u8" where
  "crc8_bytes data len i crc =
     (if i < len then crc8_bytes data len (i + 1) (crc8_bits 0 (crc XOR data ! i)) else crc)"
  by pat_completeness auto
termination
  by (relation "measure (\<lambda>(data, len, i, crc). len - i)") auto

declare crc8_bytes.simps [simp del]

definition crc8 :: "u8 list \<Rightarrow> nat \<Rightarrow> u8" where
  "crc8 data len = crc8_bytes data len 0 0"

text \<open>
  The checksum as the specification words it: for each byte in order, XOR the byte into
  the running value, then 8 times: if the top bit is set, shift left and XOR the
  polynomial 0x31, else shift left. Initial value 0, no reflection, no final XOR.
\<close>

definition checksum_shift :: "u8 \<Rightarrow> u8" where
  "checksum_shift c = (if bit c 7 then push_bit 1 c XOR 0x31 else push_bit 1 c)"

definition checksum :: "u8 list \<Rightarrow> u8" where
  "checksum bytes = foldl (\<lambda>c b. (checksum_shift ^^ 8) (c XOR b)) 0 bytes"

section \<open>Dispatch registry\<close>

text \<open>
  A message struct \<open>T\<close> declared by \<open>DEFINE_CAN_MESSAGE(T, ID, ...)\<close> is represented by
  the \<open>ID\<close> it was declared with and by \<open>sizeof(T)\<close>. The macro specialises
  \<open>MsgTraits<T, ID>\<close> with \<open>TypeID = ID\<close>; any other instance \<open>MsgTraits<T, TYPE_ID>\<close> is the
  primary template, whose \<open>TypeID\<close> is \<open>TYPE_ID\<close>. Both \<open>send\<close> and \<open>onReceive\<close> read
  \<open>MsgTraits<T, 0>::TypeID\<close>.
\<close>

definition MsgTraits_TypeID :: "u8 \<Rightarrow> u8 \<Rightarrow> u8" where
  "MsgTraits_TypeID ID TYPE_ID = (if TYPE_ID = ID then ID else TYPE_ID)"

text \<open>
  The lambda that \<open>onReceive<T>\<close> stores, applied to the received bytes: it returns without
  calling the user's callback when there are fewer than \<open>sizeof(T)\<close> bytes, and otherwise
  copies the first \<open>sizeof(T)\<close> bytes into a \<open>T\<close> and calls the callback with it.
\<close>

definition handler_call :: "nat \<times> nat \<Rightarrow> u8 list \<Rightarrow> event list" where
  "handler_call h bytes =
     (case h of (sizeof_T, cb) \<Rightarrow>
        if length bytes < sizeof_T then [] else [HandlerCall cb (take sizeof_T bytes)])"

definition onReceive :: "u8 \<Rightarrow> nat \<Rightarrow> nat \<Rightarrow> CANBus \<Rightarrow> CANBus" where
  "onReceive ID sizeof_T cb s =
     (let type = MsgTraits_TypeID ID 0
      in s\<lparr>handlers := (handlers s)(type \<mapsto> (sizeof_T, cb))\<rparr>)"

definition dispatch :: "u8 \<Rightarrow> u8 list \<Rightarrow> CANBus \<Rightarrow> event list" where
  "dispatch type bytes s =
     (case handlers s type of None \<Rightarrow> [] | Some h \<Rightarrow> handler_call h bytes)"

section \<open>Receive path\<close>

text \<open>
  \<open>expired\<close>: the difference of the two time points, cast to whole milliseconds
  (\<open>duration_cast\<close> truncates towards zero), is compared with the timeout.
\<close>

definition duration_cast_ms :: "int \<Rightarrow> int" where
  "duration_cast_ms d = sgn d * (\<bar>d\<bar> div 1000000)"

definition expired :: "time_point \<Rightarrow> time_point \<Rightarrow> bool" where
  "expired t0 now = (duration_cast_ms (now - t0) > REASSEMBLY_TIMEOUT)"

text \<open>
  \<open>append(entry, msg)\<close> adds the first \<open>data_length_code\<close> bytes of the frame's data array
  to the entry. For a data length code of 9 to 15, which the driver can deliver, the C++
  reads past the 8 cells of the array; \<open>frame_bytes\<close> then yields the 8 cells only, and no
  theorem below depends on the bytes of such a frame: those about payload bytes are stated
  for frames with a data length code of at most 8.
\<close>

definition frame_bytes :: "twai_message \<Rightarrow> u8 list" where
  "frame_bytes m = take (unat (m_data_length_code m)) (m_data m)"

definition append_entry :: "FragEntry \<Rightarrow> twai_message \<Rightarrow> FragEntry" where
  "append_entry entry m = entry\<lparr>entry_data := entry_data entry @ frame_bytes m\<rparr>"

text \<open>\<open>sendAck(to, type)\<close>: one call of \<open>twai_transmit\<close>, whose result is ignored.\<close>

definition sendAck :: "u8 \<Rightarrow> u8 \<Rightarrow> event list" where
  "sendAck to type =
     [Transmit \<lparr>m_identifier = buildId 3 to SINGLE ACK_TYPE_ID, m_data_length_code = 1,
                m_data = type # replicate 7 0\<rparr>]"

text \<open>
  \<open>handleReceive\<close>. Its two inputs from outside are what \<open>twai_receive\<close> delivers
  (\<open>None\<close> when it does not return \<open>ESP_OK\<close>) and the reading of the steady clock.
  \<open>fragMap_[baseId]\<close> inserts a default-constructed entry (no bytes, time stamp at the
  epoch) when the key is absent; every branch after it either stores an entry under the
  key or erases the key. The result is the new state and the events of this call.
\<close>

definition handleReceive :: "twai_message option \<Rightarrow> time_point \<Rightarrow> CANBus \<Rightarrow> CANBus \<times> event list" where
  "handleReceive rx now s =
     (case rx of
        None \<Rightarrow> (s, [])
      | Some m \<Rightarrow>
          let ident = m_identifier m;
              seq = id_seq ident;
              type = id_type ident;
              from = id_from ident
          in
          if type = ACK_TYPE_ID
          then (s\<lparr>pendingAck := (if m_data_length_code m > 0 then m_data m ! 0 else 0)\<rparr>, [])
          else
            let baseId = ident AND NOT 0x18;
                entry = (case fragMap s baseId of
                           None \<Rightarrow> \<lparr>entry_data = [], timestamp = 0\<rparr>
                         | Some e \<Rightarrow> e);
                erased = s\<lparr>fragMap := (fragMap s)(baseId := None)\<rparr>
            in
            if seq = START then
              (s\<lparr>fragMap := (fragMap s)(baseId \<mapsto>
                    append_entry (entry\<lparr>entry_data := [], timestamp := now\<rparr>) m)\<rparr>, [])
            else if seq = MIDDLE then
              (if expired (timestamp entry) now then (erased, [])
               else (s\<lparr>fragMap := (fragMap s)(baseId \<mapsto> append_entry entry m)\<rparr>, []))
            else if seq = END then
              (if expired (timestamp entry) now then (erased, [])
               else
                 let entry1 = append_entry entry m in
                 if length (entry_data entry1) < 1 then (erased, [])
                 else
                   let recvCrc = last (entry_data entry1);
                       bytes = butlast (entry_data entry1)
                   in
                   if recvCrc = crc8 bytes (length bytes)
                   then (erased, dispatch type bytes s @ sendAck from type)
                   else (erased, []))
            else
              (s\<lparr>fragMap := (fragMap s)(baseId \<mapsto> entry)\<rparr>,
               dispatch type (frame_bytes m) s))"

text \<open>
  The caller's loop: \<open>handleReceive\<close> is called once per received frame, the \<open>i\<close>-th call
  (counted from \<open>i\<close>) at clock reading \<open>clock i\<close>; the events are collected in order.
\<close>

fun receive_frames :: "(nat \<Rightarrow> time_point) \<Rightarrow> nat \<Rightarrow> twai_message list \<Rightarrow> CANBus \<Rightarrow> CANBus \<times> event list" where
  "receive_frames clock i [] s = (s, [])"
| "receive_frames clock i (m # ms) s =
     (case handleReceive (Some m) (clock i) s of (s1, ev1) \<Rightarrow>
        case receive_frames clock (Suc i) ms s1 of (s2, ev2) \<Rightarrow> (s2, ev1 @ ev2))"

section \<open>Send path\<close>

text \<open>
  What \<open>send\<close> meets outside the object: \<open>tx_result n\<close> is the status that the \<open>n\<close>-th call of
  \<open>twai_transmit\<close> within this \<open>send\<close> returns, and \<open>ack_polls k\<close> describes the \<open>k\<close>-th call
  of \<open>waitAck\<close>: one element for every pass of its loop that starts before 100 ms have
  elapsed, \<open>Some v\<close> when the receive path has stored \<open>v\<close> in \<open>pendingAck_\<close> since the
  previous pass (\<open>handleReceive\<close> on an ACK frame, running beside the blocked \<open>send\<close>) and
  \<open>None\<close> when it has not.
\<close>

record environment =
  tx_result :: "nat \<Rightarrow> esp_err_t"
  ack_polls :: "nat \<Rightarrow> u8 option list"

fun waitAck :: "u8 \<Rightarrow> u8 \<Rightarrow> u8 option list \<Rightarrow> CANBus \<Rightarrow> bool \<times> CANBus" where
  "waitAck type addr [] s = (False, s)"
| "waitAck type addr (w # ws) s =
     (let s1 = (case w of None \<Rightarrow> s | Some v \<Rightarrow> s\<lparr>pendingAck := v\<rparr>)
      in if pendingAck s1 = type then (True, s1\<lparr>pendingAck := 0\<rparr>)
         else waitAck type addr ws s1)"

text \<open>
  The frame that one pass of the inner loop of \<open>send\<close> builds at \<open>offset\<close>: at most 8 bytes
  of \<open>buf\<close>, copied into a zeroed \<open>twai_message_t\<close>, under the identifier with the sequence
  tag of that position.
\<close>

definition fragment :: "u8 \<Rightarrow> u8 \<Rightarrow> u8 \<Rightarrow> bool \<Rightarrow> u8 list \<Rightarrow> nat \<Rightarrow> twai_message" where
  "fragment prio addr type fragmented buf offset =
     (let chunk = min 8 (length buf - offset);
          seq = (if \<not> fragmented then SINGLE
                 else if offset = 0 then START
                 else if offset + chunk \<ge> length buf then END else MIDDLE)
      in \<lparr>m_identifier = buildId prio addr seq type,
          m_data_length_code = of_nat chunk,
          m_data = take chunk (drop offset buf) @ replicate (8 - chunk) 0\<rparr>)"

text \<open>
  The inner loop of \<open>send\<close> ("Fragmente senden"), from \<open>offset\<close> on: it returns the status,
  the number of \<open>twai_transmit\<close> calls made so far and the frames it called
  \<open>twai_transmit\<close> with. It stops at the first call that does not return \<open>ESP_OK\<close>.
\<close>

function send_fragments ::
  "(nat \<Rightarrow> esp_err_t) \<Rightarrow> u8 \<Rightarrow> u8 \<Rightarrow> u8 \<Rightarrow> bool \<Rightarrow> u8 list \<Rightarrow> nat \<Rightarrow> nat
     \<Rightarrow> esp_err_t \<times> nat \<times> twai_message list" where
  "send_fragments tx prio addr type fragmented buf offset n =
     (if offset < length buf then
        let chunk = min 8 (length buf - offset);
            m = fragment prio addr type fragmented buf offset;
            e = tx n
        in if e \<noteq> ESP_OK then (e, Suc n, [m])
           else (case send_fragments tx prio addr type fragmented buf (offset + chunk) (Suc n) of
                   (e', n', ms) \<Rightarrow> (e', n', m # ms))
      else (ESP_OK, n, []))"
  by pat_completeness auto
termination
  by (relation "measure (\<lambda>(tx, prio, addr, type, fragmented, buf, offset, n). length buf - offset)")
     (auto simp: min_def)

declare send_fragments.simps [simp del]

text \<open>
  The outer loop \<open>while (true)\<close> of \<open>send\<close>. It need not end (with a retry limit of 255 the
  8-bit counter \<open>attempts\<close> wraps before it exceeds the limit), so it runs on fuel, one unit
  per pass, and \<open>None\<close> is "not returned yet". \<open>attempts\<close> is the 8-bit counter, \<open>k\<close> counts
  the calls of \<open>waitAck\<close> and \<open>n\<close> the calls of \<open>twai_transmit\<close>.
\<close>

fun send_attempts ::
  "nat \<Rightarrow> environment \<Rightarrow> u8 \<Rightarrow> u8 \<Rightarrow> u8 \<Rightarrow> bool \<Rightarrow> u8 list \<Rightarrow> u8 \<Rightarrow> nat \<Rightarrow> nat \<Rightarrow> CANBus
     \<Rightarrow> (esp_err_t \<times> CANBus \<times> event list) option" where
  "send_attempts 0 env prio addr type fragmented buf attempts k n s = None"
| "send_attempts (Suc fuel) env prio addr type fragmented buf attempts k n s =
     (case send_fragments (tx_result env) prio addr type fragmented buf 0 n of
        (e, n', ms) \<Rightarrow>
          if e \<noteq> ESP_OK then Some (e, s, map Transmit ms)
          else if retryLimit s = 0 \<or> \<not> fragmented then Some (ESP_OK, s, map Transmit ms)
          else
            (case waitAck type addr (ack_polls env k) s of
               (acked, s') \<Rightarrow>
                 if acked then Some (ESP_OK, s', map Transmit ms)
                 else
                   let attempts' = attempts + 1 in
                   if attempts' > retryLimit s' then
                     Some (ESP_FAIL, s',
                           map Transmit ms @
                           (case errorCb s' of None \<Rightarrow> [] | Some cb \<Rightarrow> [ErrorCall cb type addr]))
                   else
                     (case send_attempts fuel env prio addr type fragmented buf attempts' (Suc k) n' s' of
                        None \<Rightarrow> None
                      | Some (r, s'', evs) \<Rightarrow> Some (r, s'', map Transmit ms @ evs))))"

text \<open>
  \<open>send<T>(prio, addr, msg)\<close>, with \<open>msg\<close> given as the \<open>sizeof(T)\<close> bytes of the object.
\<close>

definition send ::
  "nat \<Rightarrow> environment \<Rightarrow> u8 \<Rightarrow> u8 \<Rightarrow> u8 \<Rightarrow> u8 list \<Rightarrow> CANBus
     \<Rightarrow> (esp_err_t \<times> CANBus \<times> event list) option" where
  "send fuel env ID prio addr msg s =
     (let type = MsgTraits_TypeID ID 0;
          len = length msg;
          fragmented = (len > 8);
          buf = (if fragmented then msg @ [crc8 msg len] else msg)
      in send_attempts fuel env prio addr type fragmented buf 0 0 0 s)"

text \<open>
  The frames of one pass of the inner loop from \<open>offset\<close> on when every \<open>twai_transmit\<close>
  returns \<open>ESP_OK\<close>.
\<close>

definition fragments :: "u8 \<Rightarrow> u8 \<Rightarrow> u8 \<Rightarrow> bool \<Rightarrow> u8 list \<Rightarrow> nat \<Rightarrow> twai_message list" where
  "fragments prio addr type fragmented buf offset =
     snd (snd (send_fragments (\<lambda>n. ESP_OK) prio addr type fragmented buf offset 0))"

section \<open>Reading a trace\<close>

text \<open>The frames that a trace passed to \<open>twai_transmit\<close>, and its calls of receive callbacks.\<close>

fun sent_frames :: "event list \<Rightarrow> twai_message list" where
  "sent_frames [] = []"
| "sent_frames (Transmit m # evs) = m # sent_frames evs"
| "sent_frames (_ # evs) = sent_frames evs"

fun handler_calls :: "event list \<Rightarrow> (nat \<times> u8 list) list" where
  "handler_calls [] = []"
| "handler_calls (HandlerCall cb bytes # evs) = (cb, bytes) # handler_calls evs"
| "handler_calls (_ # evs) = handler_calls evs"

section \<open>Identifier codec: properties\<close>

lemma three_is_mask: "(3::'a::len word) = mask 2"
  by (simp add: mask_eq_exp_minus_1)

lemma seven_is_mask: "(7::'a::len word) = mask 3"
  by (simp add: mask_eq_exp_minus_1)

lemma fifteen_is_mask: "(15::'a::len word) = mask 4"
  by (simp add: mask_eq_exp_minus_1)

lemmas field_masks = three_is_mask seven_is_mask fifteen_is_mask

lemma and_3_id: "p \<le> 3 \<Longrightarrow> (p::u8) AND 3 = p"
  unfolding three_is_mask
  by (rule less_mask_eq) (simp add: word_le_nat_alt word_less_nat_alt mask_eq_exp_minus_1)

lemma and_7_id: "p \<le> 7 \<Longrightarrow> (p::u8) AND 7 = p"
  unfolding seven_is_mask
  by (rule less_mask_eq) (simp add: word_le_nat_alt word_less_nat_alt mask_eq_exp_minus_1)

lemma and_15_id: "p \<le> 15 \<Longrightarrow> (p::u8) AND 15 = p"
  unfolding fifteen_is_mask
  by (rule less_mask_eq) (simp add: word_le_nat_alt word_less_nat_alt mask_eq_exp_minus_1)

text \<open>Whatever the arguments, each field read back is the argument masked to its width.\<close>

lemma id_type_buildId: "id_type (buildId prio addr seq type) = type AND 7"
  unfolding id_type_def buildId_def field_masks
  by (rule bit_word_eqI) (auto simp add: bit_simps)

lemma id_seq_buildId: "id_seq (buildId prio addr seq type) = seq AND 3"
  unfolding id_seq_def buildId_def field_masks
  by (rule bit_word_eqI) (auto simp add: bit_simps)

lemma id_from_buildId: "id_from (buildId prio addr seq type) = addr AND 15"
  unfolding id_from_def buildId_def field_masks
  by (rule bit_word_eqI) (auto simp add: bit_simps)

lemma id_prio_buildId: "id_prio (buildId prio addr seq type) = prio AND 3"
  unfolding id_prio_def buildId_def field_masks
  by (rule bit_word_eqI) (auto simp add: bit_simps)

lemma buildId_take_11: "buildId prio addr seq type AND mask 11 = buildId prio addr seq type"
  unfolding buildId_def field_masks
  by (rule bit_word_eqI) (auto simp add: bit_simps)

lemma buildId_11_bits: "buildId prio addr seq type < 2 ^ 11"
  using and_mask_less' [of 11 "buildId prio addr seq type"] by (simp add: buildId_take_11)

text \<open>
  Claim C6. For a priority in 0..3, an address in 0..15, a sequence value in 0..3 and a
  type in 0..7, the identifier built by \<open>buildId\<close> is
  \<open>priority<<9 | address<<5 | sequence<<3 | type\<close>, it fits in 11 bits, and decoding it
  gives back exactly (priority, address, sequence, type). The sequence, type and address
  are read as \<open>handleReceive\<close> reads them; the priority as the spec's decode does.
\<close>

theorem identifier_roundtrip:
  assumes "prio \<le> 3" and "addr \<le> 15" and "seq \<le> 3" and "type \<le> 7"
  shows "decode (buildId prio addr seq type) = (prio, addr, seq, type) \<and>
         buildId prio addr seq type =
           (push_bit 9 (ucast prio) OR push_bit 5 (ucast addr) OR push_bit 3 (ucast seq) OR ucast type) \<and>
         buildId prio addr seq type < 2 ^ 11"
proof -
  have fields: "prio AND 3 = prio" "addr AND 15 = addr" "seq AND 3 = seq" "type AND 7 = type"
    using assms by (simp_all add: and_3_id and_7_id and_15_id)
  have "decode (buildId prio addr seq type) = (prio, addr, seq, type)"
    by (simp add: decode_def id_prio_buildId id_from_buildId id_seq_buildId id_type_buildId fields)
  moreover have "buildId prio addr seq type =
      (push_bit 9 (ucast prio) OR push_bit 5 (ucast addr) OR push_bit 3 (ucast seq) OR ucast type)"
    by (simp add: buildId_def fields)
  ultimately show ?thesis
    using buildId_11_bits by blast
qed

text \<open>
  The identifier of the user guide's example, \<open>0b10_0110_11_001\<close>: priority 2, address 6,
  sequence 3 (SINGLE), type 1.
\<close>

theorem identifier_roundtrip_witness:
  "(2::u8) \<le> 3 \<and> (6::u8) \<le> 15 \<and> (3::u8) \<le> 3 \<and> (1::u8) \<le> 7 \<and>
   buildId 2 6 3 1 = 0x4D9 \<and> decode (buildId 2 6 3 1) = (2, 6, 3, 1)"
  using identifier_roundtrip [of 2 6 3 1]
  by (simp add: decode_def id_prio_def id_from_def id_seq_def id_type_def)

section \<open>Checksum: the code against the specification's wording\<close>

lemma top_bit_test: "((c :: u8) AND 0x80 \<noteq> 0) = bit c 7"
proof -
  have "(c AND 0x80 = 0) = (\<not> bit c 7)"
    using and_exp_eq_0_iff_not_bit [of c 7] by simp
  then show ?thesis by simp
qed

lemma crc8_bits_funpow: "j \<le> 8 \<Longrightarrow> crc8_bits j c = (checksum_shift ^^ nat (8 - j)) c"
proof (induction j c rule: crc8_bits.induct)
  case (1 j crc)
  have step: "(if crc AND 0x80 \<noteq> 0 then push_bit 1 crc XOR 0x31 else push_bit 1 crc) = checksum_shift crc"
    by (simp add: checksum_shift_def top_bit_test)
  show ?case
  proof (cases "j < 8")
    case True
    have n: "nat (8 - j) = Suc (nat (8 - (j + 1)))"
      using True by simp
    have "crc8_bits j crc = crc8_bits (j + 1) (checksum_shift crc)"
      using True by (subst crc8_bits.simps) (simp add: step)
    also have "\<dots> = (checksum_shift ^^ nat (8 - (j + 1))) (checksum_shift crc)"
    proof -
      have "j + 1 \<le> 8" using True by simp
      from "1.IH" [OF True this] show ?thesis by (simp only: step)
    qed
    finally show ?thesis
      by (simp only: n funpow_Suc_right o_apply)
  next
    case False
    with "1.prems" have "j = 8" by simp
    then show ?thesis by (subst crc8_bits.simps) simp
  qed
qed

lemma crc8_bytes_foldl:
  "i \<le> length bytes \<Longrightarrow>
   crc8_bytes bytes (length bytes) i crc =
   foldl (\<lambda>c b. (checksum_shift ^^ 8) (c XOR b)) crc (drop i bytes)"
proof (induction bytes "length bytes" i crc rule: crc8_bytes.induct)
  case (1 data i crc)
  show ?case
  proof (cases "i < length data")
    case True
    have d: "drop i data = data ! i # drop (Suc i) data"
      using True by (simp add: Cons_nth_drop_Suc)
    have "crc8_bytes data (length data) i crc =
          crc8_bytes data (length data) (i + 1) (crc8_bits 0 (crc XOR data ! i))"
      using True by (subst crc8_bytes.simps) simp
    also have "\<dots> = foldl (\<lambda>c b. (checksum_shift ^^ 8) (c XOR b))
                        (crc8_bits 0 (crc XOR data ! i)) (drop (i + 1) data)"
      using True "1.hyps" by simp
    finally show ?thesis
      by (simp add: d crc8_bits_funpow)
  next
    case False
    then show ?thesis
      using "1.prems" by (subst crc8_bytes.simps) simp
  qed
qed

text \<open>Two checksums that the examples below use.\<close>

lemma crc8_one_to_nine:
  "crc8 [1, 2, 3, 4, 5, 6, 7, 8, 9] (length [1 :: u8, 2, 3, 4, 5, 6, 7, 8, 9]) = 217"
  by code_simp

lemma crc8_one_to_sixteen:
  "crc8 [1, 2, 3, 4, 5, 6, 7, 8, 9, 10, 11, 12, 13, 14, 15, 16]
        (length [1 :: u8, 2, 3, 4, 5, 6, 7, 8, 9, 10, 11, 12, 13, 14, 15, 16]) = 193"
  by code_simp

text \<open>
  Claim C7. For every byte sequence, \<open>crc8\<close> called on it with its length computes the
  checksum as the specification words it (initial value 0; per byte, XOR it into the
  running value, then 8 times shift left, XORing 0x31 when the top bit was set; no
  reflection, no final XOR). The result is a function of the bytes alone and is one byte.
\<close>

theorem crc8_is_checksum: "crc8 bytes (length bytes) = checksum bytes"
  by (simp add: crc8_def checksum_def crc8_bytes_foldl)

section \<open>Dispatch: unknown type and short message\<close>

text \<open>
  Claim C9. Dispatching a type-id for which no handler is registered calls no handler;
  dispatching to a registered handler fewer bytes than the size of its message type calls
  no handler either, also right after \<open>onReceive\<close> registered it. \<open>dispatch\<close> has no
  result but the calls it makes, so there is no error to report.
\<close>

theorem dispatch_unknown_or_short:
  "(handlers s type = None \<longrightarrow> dispatch type bytes s = []) \<and>
   (handlers s type = Some (sizeof_T, cb) \<and> length bytes < sizeof_T \<longrightarrow> dispatch type bytes s = []) \<and>
   (length bytes < sizeof_T \<longrightarrow>
      dispatch (MsgTraits_TypeID ID 0) bytes (onReceive ID sizeof_T cb s) = [])"
  by (simp add: dispatch_def handler_call_def onReceive_def)

theorem dispatch_unknown_or_short_witness:
  "handlers CANBus_new 1 = None \<and> dispatch 1 [5, 6] CANBus_new = [] \<and>
   handlers (onReceive 1 2 42 CANBus_new) 0 = Some (2, 42) \<and> length [5 :: u8] < 2 \<and>
   dispatch 0 [5] (onReceive 1 2 42 CANBus_new) = []"
  using dispatch_unknown_or_short [where s = CANBus_new and type = 1 and bytes = "[5, 6]"]
        dispatch_unknown_or_short [where s = "onReceive 1 2 42 CANBus_new" and type = 0
                                     and bytes = "[5]" and sizeof_T = 2 and cb = 42]
  by (simp add: CANBus_new_def onReceive_def MsgTraits_TypeID_def)

section \<open>Receive path: acknowledgment frames\<close>

lemma id_type_is_low_bits: "(id_type ident = ACK_TYPE_ID) = (ident AND 0x07 = 0x07)"
proof -
  have "((ucast (ident AND mask 3) :: u8) = mask 3) = (ident AND mask 3 = mask 3)"
  proof -
    have lt8: "n < 8" if "n < 3" for n :: nat
      using that by simp
    have lt32: "n < 32" if "n < 3" for n :: nat
      using that by simp
    show ?thesis
      by (simp add: bit_eq_iff bit_simps) (meson lt8 lt32)
  qed
  then show ?thesis
    by (simp add: id_type_def seven_is_mask)
qed

text \<open>
  Claim C10. A received frame whose identifier has type field 7 (its low 3 bits all
  set), whatever its sequence bits, only stores a value in the pending-acknowledgment
  slot: the first data byte, or 0 when the data length code is 0. The reassembly table
  and every other member stay as they were, and nothing is called or transmitted.
\<close>

theorem ack_frame_only_sets_pendingAck:
  assumes "m_identifier m AND 0x07 = 0x07"
  shows "handleReceive (Some m) now s =
           (s\<lparr>pendingAck := (if m_data_length_code m > 0 then m_data m ! 0 else 0)\<rparr>, []) \<and>
         fragMap (fst (handleReceive (Some m) now s)) = fragMap s \<and>
         snd (handleReceive (Some m) now s) = []"
  using assms by (simp add: handleReceive_def Let_def id_type_is_low_bits [symmetric])

text \<open>
  The acknowledgment that \<open>sendAck(5, 2)\<close> transmits (identifier 0x6BF, one data byte 2),
  received by a freshly constructed endpoint.
\<close>

theorem ack_frame_only_sets_pendingAck_witness:
  "m_identifier \<lparr>m_identifier = 0x6BF, m_data_length_code = 1, m_data = [2, 0, 0, 0, 0, 0, 0, 0]\<rparr>
     AND 0x07 = 0x07 \<and>
   handleReceive
     (Some \<lparr>m_identifier = 0x6BF, m_data_length_code = 1, m_data = [2, 0, 0, 0, 0, 0, 0, 0]\<rparr>)
     0 CANBus_new = (CANBus_new\<lparr>pendingAck := 2\<rparr>, [])"
  using ack_frame_only_sets_pendingAck
          [of "\<lparr>m_identifier = 0x6BF, m_data_length_code = 1, m_data = [2, 0, 0, 0, 0, 0, 0, 0]\<rparr>"
              0 CANBus_new]
  by simp

section \<open>Receive path: End frames\<close>

lemmas id_type_not_ack = id_type_is_low_bits [unfolded ACK_TYPE_ID_def]

text \<open>
  Claim C5. A received End frame (not of the ACK type, at most 8 data bytes) whose
  routing key has an entry that is not expired: the entry is removed in every case; when
  the accumulated bytes are empty, or their last byte differs from the checksum of the
  bytes before it, no handler is called and nothing is transmitted. The last conjunct is
  the whole effect of the call, including the dispatch and the acknowledgment when the
  checksum matches.
\<close>

theorem end_frame_removes_entry:
  assumes "m_identifier m AND 0x07 \<noteq> 0x07"
      and "id_seq (m_identifier m) = END"
      and "unat (m_data_length_code m) \<le> 8"
      and "key = m_identifier m AND NOT 0x18"
      and "fragMap s key = Some e"
      and "\<not> expired (timestamp e) now"
      and "acc = entry_data e @ frame_bytes m"
  shows "fragMap (fst (handleReceive (Some m) now s)) key = None \<and>
         (acc = [] \<or> last acc \<noteq> crc8 (butlast acc) (length (butlast acc)) \<longrightarrow>
            snd (handleReceive (Some m) now s) = []) \<and>
         handleReceive (Some m) now s =
           (s\<lparr>fragMap := (fragMap s)(key := None)\<rparr>,
            if acc \<noteq> [] \<and> last acc = crc8 (butlast acc) (length (butlast acc))
            then dispatch (id_type (m_identifier m)) (butlast acc) s @
                 sendAck (id_from (m_identifier m)) (id_type (m_identifier m))
            else [])"
  using assms
  by (simp add: handleReceive_def Let_def id_type_not_ack append_entry_def)

text \<open>
  An entry holding bytes 1..8 since 1 s, and 300 ms later the End frame of the same key
  (identifier 0x272: priority 1, address 3, type 2) with the bytes 9 and 0xFF; the checksum
  of 1..9 is 217, not 0xFF.
\<close>

theorem end_frame_removes_entry_witness:
  "m_identifier \<lparr>m_identifier = 0x272, m_data_length_code = 2, m_data = [9, 0xFF, 0, 0, 0, 0, 0, 0]\<rparr>
     AND 0x07 \<noteq> 0x07 \<and>
   id_seq (m_identifier \<lparr>m_identifier = 0x272, m_data_length_code = 2,
                         m_data = [9, 0xFF, 0, 0, 0, 0, 0, 0]\<rparr>) = END \<and>
   \<not> expired 1000000000 1300000000 \<and>
   last [1, 2, 3, 4, 5, 6, 7, 8, 9, 0xFF] \<noteq>
     crc8 (butlast [1, 2, 3, 4, 5, 6, 7, 8, 9, 0xFF])
          (length (butlast [1 :: u8, 2, 3, 4, 5, 6, 7, 8, 9, 0xFF])) \<and>
   fragMap (fst (handleReceive
       (Some \<lparr>m_identifier = 0x272, m_data_length_code = 2, m_data = [9, 0xFF, 0, 0, 0, 0, 0, 0]\<rparr>)
       1300000000
       (CANBus_new\<lparr>fragMap := [0x262 \<mapsto>
          \<lparr>entry_data = [1, 2, 3, 4, 5, 6, 7, 8], timestamp = 1000000000\<rparr>]\<rparr>))) 0x262 = None \<and>
   snd (handleReceive
       (Some \<lparr>m_identifier = 0x272, m_data_length_code = 2, m_data = [9, 0xFF, 0, 0, 0, 0, 0, 0]\<rparr>)
       1300000000
       (CANBus_new\<lparr>fragMap := [0x262 \<mapsto>
          \<lparr>entry_data = [1, 2, 3, 4, 5, 6, 7, 8], timestamp = 1000000000\<rparr>]\<rparr>)) = []"
proof -
  let ?m = "\<lparr>m_identifier = 0x272, m_data_length_code = 2, m_data = [9, 0xFF, 0, 0, 0, 0, 0, 0]\<rparr>"
  let ?e = "\<lparr>entry_data = [1 :: u8, 2, 3, 4, 5, 6, 7, 8], timestamp = 1000000000\<rparr>"
  have crc: "crc8 (butlast [1, 2, 3, 4, 5, 6, 7, 8, 9, 0xFF])
                  (length (butlast [1 :: u8, 2, 3, 4, 5, 6, 7, 8, 9, 0xFF])) = 217"
    by code_simp
  have h1: "m_identifier ?m AND 0x07 \<noteq> 0x07"
    by simp
  have h2: "id_seq (m_identifier ?m) = END"
    by (simp add: id_seq_def)
  have h3: "unat (m_data_length_code ?m) \<le> 8"
    by simp
  have h4: "(0x262 :: u32) = m_identifier ?m AND NOT 0x18"
    by simp
  have h5: "fragMap (CANBus_new\<lparr>fragMap := [0x262 \<mapsto> ?e]\<rparr>) 0x262 = Some ?e"
    by simp
  have h6: "\<not> expired (timestamp ?e) 1300000000"
    by (simp add: expired_def duration_cast_ms_def)
  have h7: "[1, 2, 3, 4, 5, 6, 7, 8, 9, 0xFF] = entry_data ?e @ frame_bytes ?m"
    by (simp add: frame_bytes_def)
  from end_frame_removes_entry [OF h1 h2 h3 h4 h5 h6 h7] h1 h2 h6
  show ?thesis
    unfolding crc by simp
qed

section \<open>Receive path: Middle and End frames without a live entry\<close>

text \<open>
  A Middle or End frame is dropped, and the key erased, when the entry that
  \<open>fragMap_[baseId]\<close> yields is expired. For a key without entry that is the
  default-constructed entry, whose time stamp is the clock's epoch: it is expired only
  once the clock reads more than the timeout.
\<close>

lemma fragment_on_expired_entry_is_dropped:
  assumes "m_identifier m AND 0x07 \<noteq> 0x07"
      and "id_seq (m_identifier m) = MIDDLE \<or> id_seq (m_identifier m) = END"
      and "key = m_identifier m AND NOT 0x18"
      and "expired (case fragMap s key of None \<Rightarrow> 0 | Some e \<Rightarrow> timestamp e) now"
  shows "handleReceive (Some m) now s = (s\<lparr>fragMap := (fragMap s)(key := None)\<rparr>, [])"
  using assms
  by (auto simp add: handleReceive_def Let_def id_type_not_ack split: option.splits)

text \<open>
  Claim C4 says that a Middle frame whose key has no entry is discarded. The code does
  not do so while the steady clock reads 500 ms or less (on the ESP32 it counts from
  boot): on a freshly constructed endpoint, 100 ms after the epoch, the Middle frame
  0x26A (priority 1, address 3, type 2) with the bytes 9 and 8 leaves an entry for its
  key 0x262 that holds these two bytes.
\<close>

theorem orphan_middle_frame_starts_entry:
  "fragMap (fst (handleReceive
       (Some \<lparr>m_identifier = 0x26A, m_data_length_code = 2, m_data = [9, 8, 0, 0, 0, 0, 0, 0]\<rparr>)
       100000000 CANBus_new)) 0x262 = Some \<lparr>entry_data = [9, 8], timestamp = 0\<rparr>"
  by (simp add: handleReceive_def Let_def CANBus_new_def id_type_def id_seq_def id_from_def
      expired_def duration_cast_ms_def append_entry_def frame_bytes_def)

section \<open>Send path: one pass of the fragment loop\<close>

lemma send_fragments_ok:
  "\<forall>n. tx n = ESP_OK \<Longrightarrow>
   send_fragments tx prio addr type fragmented buf offset n =
     (ESP_OK, n + length (fragments prio addr type fragmented buf offset),
      fragments prio addr type fragmented buf offset)"
proof (induction "length buf - offset" arbitrary: offset n tx rule: less_induct)
  case less
  show ?case
  proof (cases "offset < length buf")
    case True
    define next_offset where "next_offset = offset + min 8 (length buf - offset)"
    have dec: "length buf - next_offset < length buf - offset"
      using True by (auto simp add: next_offset_def min_def)
    have a: "send_fragments tx prio addr type fragmented buf next_offset (Suc n) =
      (ESP_OK, Suc n + length (fragments prio addr type fragmented buf next_offset),
       fragments prio addr type fragmented buf next_offset)"
      using less.hyps [OF dec less.prems] .
    have b: "send_fragments (\<lambda>n. ESP_OK) prio addr type fragmented buf next_offset (Suc 0) =
      (ESP_OK, Suc 0 + length (fragments prio addr type fragmented buf next_offset),
       fragments prio addr type fragmented buf next_offset)"
      using less.hyps [OF dec, of "\<lambda>n. ESP_OK"] by simp
    have c: "fragments prio addr type fragmented buf offset =
               fragment prio addr type fragmented buf offset #
               fragments prio addr type fragmented buf next_offset"
      unfolding fragments_def [of _ _ _ _ _ offset]
      using True b
      by (subst send_fragments.simps) (simp add: Let_def next_offset_def [symmetric])
    show ?thesis
      using True a less.prems
      by (subst send_fragments.simps) (simp add: Let_def next_offset_def [symmetric] c)
  next
    case False
    then show ?thesis
      by (simp add: fragments_def send_fragments.simps)
  qed
qed

lemma fragments_step:
  "offset < length buf \<Longrightarrow>
   fragments prio addr type fragmented buf offset =
     fragment prio addr type fragmented buf offset #
     fragments prio addr type fragmented buf (offset + min 8 (length buf - offset))"
  unfolding fragments_def [of _ _ _ _ _ offset]
  by (subst send_fragments.simps) (simp add: Let_def send_fragments_ok)

lemma fragments_done:
  "\<not> offset < length buf \<Longrightarrow> fragments prio addr type fragmented buf offset = []"
  by (simp add: fragments_def send_fragments.simps)

section \<open>Send path: no acknowledgment expected\<close>

text \<open>
  Claim C8. When the retry limit is 0 or the message has at most 8 bytes, and every
  \<open>twai_transmit\<close> returns \<open>ESP_OK\<close>, \<open>send\<close> returns \<open>ESP_OK\<close> within its first pass (any
  fuel above 0 is enough), whatever the acknowledgment environment is: the endpoint is
  unchanged (the pending-acknowledgment slot is not read or reset), and the trace is the
  calls of \<open>twai_transmit\<close> for the frames of one pass, so the error callback is not called.
\<close>

theorem send_without_ack_wait:
  assumes "retryLimit s = 0 \<or> length msg \<le> 8"
      and "\<forall>n. tx_result env n = ESP_OK"
  shows "send (Suc fuel) env ID prio addr msg s =
           Some (ESP_OK, s,
                 map Transmit
                   (fragments prio addr (MsgTraits_TypeID ID 0) (8 < length msg)
                      (if 8 < length msg then msg @ [crc8 msg (length msg)] else msg) 0))"
proof -
  have "send_fragments (tx_result env) prio addr (MsgTraits_TypeID ID 0) (8 < length msg)
          (if 8 < length msg then msg @ [crc8 msg (length msg)] else msg) 0 0 =
        (ESP_OK,
         0 + length (fragments prio addr (MsgTraits_TypeID ID 0) (8 < length msg)
                       (if 8 < length msg then msg @ [crc8 msg (length msg)] else msg) 0),
         fragments prio addr (MsgTraits_TypeID ID 0) (8 < length msg)
           (if 8 < length msg then msg @ [crc8 msg (length msg)] else msg) 0)"
    using assms(2) by (rule send_fragments_ok)
  then show ?thesis
    using assms(1) by (auto simp add: send_def Let_def)
qed

text \<open>
  A 9-byte message with the retry limit set to 0, and the 2-byte \<open>StatusMsg{1, 0}\<close> of the
  example sketch under the default retry limit 3.
\<close>

theorem send_without_ack_wait_witness:
  "retryLimit (setRetryLimit 0 CANBus_new) = 0 \<and>
   send 1 \<lparr>tx_result = (\<lambda>n. ESP_OK), ack_polls = (\<lambda>k. [])\<rparr> 2 0 2 [1, 2, 3, 4, 5, 6, 7, 8, 9]
        (setRetryLimit 0 CANBus_new) =
     Some (ESP_OK, setRetryLimit 0 CANBus_new,
       [Transmit \<lparr>m_identifier = 0x040, m_data_length_code = 8, m_data = [1, 2, 3, 4, 5, 6, 7, 8]\<rparr>,
        Transmit \<lparr>m_identifier = 0x050, m_data_length_code = 2, m_data = [9, 217, 0, 0, 0, 0, 0, 0]\<rparr>]) \<and>
   length [1 :: u8, 0] \<le> 8 \<and>
   send 1 \<lparr>tx_result = (\<lambda>n. ESP_OK), ack_polls = (\<lambda>k. [])\<rparr> 1 1 3 [1, 0] CANBus_new =
     Some (ESP_OK, CANBus_new,
       [Transmit \<lparr>m_identifier = 0x278, m_data_length_code = 2, m_data = [1, 0, 0, 0, 0, 0, 0, 0]\<rparr>])"
proof -
  let ?env = "\<lparr>tx_result = (\<lambda>n. ESP_OK), ack_polls = (\<lambda>k. [])\<rparr>"
  have long: "fragments 0 2 (MsgTraits_TypeID 2 0) (8 < length [1 :: u8, 2, 3, 4, 5, 6, 7, 8, 9])
          (if 8 < length [1 :: u8, 2, 3, 4, 5, 6, 7, 8, 9]
           then [1, 2, 3, 4, 5, 6, 7, 8, 9] @ [crc8 [1, 2, 3, 4, 5, 6, 7, 8, 9] (length [1 :: u8, 2, 3, 4, 5, 6, 7, 8, 9])]
           else [1, 2, 3, 4, 5, 6, 7, 8, 9]) 0 =
        [\<lparr>m_identifier = 0x040, m_data_length_code = 8, m_data = [1, 2, 3, 4, 5, 6, 7, 8]\<rparr>,
         \<lparr>m_identifier = 0x050, m_data_length_code = 2, m_data = [9, 217, 0, 0, 0, 0, 0, 0]\<rparr>]"
    unfolding fragments_def crc8_one_to_nine
    by (simp add: MsgTraits_TypeID_def send_fragments.simps fragment_def buildId_def)
       (simp add: numeral_eq_Suc)
  have short: "fragments 1 3 (MsgTraits_TypeID 1 0) (8 < length [1 :: u8, 0])
          (if 8 < length [1 :: u8, 0] then [1, 0] @ [crc8 [1, 0] (length [1 :: u8, 0])] else [1, 0]) 0 =
        [\<lparr>m_identifier = 0x278, m_data_length_code = 2, m_data = [1, 0, 0, 0, 0, 0, 0, 0]\<rparr>]"
    unfolding fragments_def
    by (simp add: MsgTraits_TypeID_def send_fragments.simps fragment_def buildId_def)
       (simp add: numeral_eq_Suc)
  have a: "retryLimit (setRetryLimit 0 CANBus_new) = 0"
    by (simp add: setRetryLimit_def)
  have b: "length [1 :: u8, 0] \<le> 8"
    by simp
  have ok: "\<forall>n. tx_result ?env n = ESP_OK"
    by simp
  have c: "send 1 ?env 2 0 2 [1, 2, 3, 4, 5, 6, 7, 8, 9] (setRetryLimit 0 CANBus_new) =
     Some (ESP_OK, setRetryLimit 0 CANBus_new,
       [Transmit \<lparr>m_identifier = 0x040, m_data_length_code = 8, m_data = [1, 2, 3, 4, 5, 6, 7, 8]\<rparr>,
        Transmit \<lparr>m_identifier = 0x050, m_data_length_code = 2, m_data = [9, 217, 0, 0, 0, 0, 0, 0]\<rparr>])"
    using send_without_ack_wait [OF disjI1 [OF a] ok,
            where fuel = 0 and ID = 2 and prio = 0 and addr = 2 and msg = "[1, 2, 3, 4, 5, 6, 7, 8, 9]"]
    unfolding long by (simp only: One_nat_def list.map)
  have d: "send 1 ?env 1 1 3 [1, 0] CANBus_new =
     Some (ESP_OK, CANBus_new,
       [Transmit \<lparr>m_identifier = 0x278, m_data_length_code = 2, m_data = [1, 0, 0, 0, 0, 0, 0, 0]\<rparr>])"
    using send_without_ack_wait [OF disjI2 [OF b] ok,
            where s = CANBus_new and fuel = 0 and ID = 1 and prio = 1 and addr = 3]
    unfolding short by (simp only: One_nat_def list.map)
  show ?thesis
    by (intro conjI) (rule a, rule c, rule b, rule d)
qed

section \<open>Send path: waiting for the acknowledgment\<close>

text \<open>
  On the receive path only an ACK frame writes the pending-acknowledgment slot, so a value
  other than 0 in it is the first data byte of the last ACK frame received.
\<close>

lemma handleReceive_pendingAck:
  "pendingAck (fst (handleReceive rx now s)) =
     (case rx of
        None \<Rightarrow> pendingAck s
      | Some m \<Rightarrow>
          if m_identifier m AND 0x07 = 0x07
          then (if m_data_length_code m > 0 then m_data m ! 0 else 0)
          else pendingAck s)"
  by (simp add: handleReceive_def Let_def id_type_not_ack split: option.splits)

text \<open>
  \<open>waitAck\<close> succeeds exactly when one of its checks finds the message's type in the
  pending-acknowledgment slot: either the receive path stored that value during the wait,
  or the slot held it when the wait began and the first check comes before any other
  value is stored. A successful wait leaves 0 in the slot.
\<close>

lemma waitAck_succeeds_iff:
  "fst (waitAck type addr polls s) \<longleftrightarrow>
     Some type \<in> set polls \<or> (pendingAck s = type \<and> (\<exists>ws. polls = None # ws))"
proof (induction polls arbitrary: s)
  case Nil
  then show ?case by simp
next
  case (Cons w ws)
  show ?case
  proof (cases w)
    case None
    then show ?thesis
      using Cons.IH [of s] by (cases ws) (auto simp add: Let_def split: option.splits)
  next
    case (Some v)
    then show ?thesis
      using Cons.IH [of "s\<lparr>pendingAck := v\<rparr>"] by (cases ws) (auto simp add: Let_def split: option.splits)
  qed
qed

lemma waitAck_resets:
  "fst (waitAck type addr polls s) \<Longrightarrow> pendingAck (snd (waitAck type addr polls s)) = 0"
  by (induction polls arbitrary: s) (auto simp add: Let_def split: option.splits)

text \<open>
  Claim C3 says that a wait attempt succeeds only if an acknowledgment frame carrying the
  message's type-id was received within the wait window. The code does not wait for one:
  the type that \<open>send\<close> passes to \<open>waitAck\<close> is \<open>MsgTraits<T, 0>::TypeID\<close>, which is 0, and the
  slot of an endpoint that has received no frame at all holds 0. On a freshly constructed
  endpoint (retry limit 3), sending the 16-byte message 1..16 (declared with ID 2,
  priority 0, to address 2) while nothing is received: the wait that \<open>send\<close> makes succeeds
  at its first check, and \<open>send\<close> returns \<open>ESP_OK\<close> after one pass of three frames.
\<close>

theorem wait_succeeds_with_no_ack_received:
  "waitAck (MsgTraits_TypeID 2 0) 2 [None, None] CANBus_new = (True, CANBus_new) \<and>
   send 1 \<lparr>tx_result = (\<lambda>n. ESP_OK), ack_polls = (\<lambda>k. [None, None])\<rparr> 2 0 2
        [1, 2, 3, 4, 5, 6, 7, 8, 9, 10, 11, 12, 13, 14, 15, 16] CANBus_new =
     Some (ESP_OK, CANBus_new,
       [Transmit \<lparr>m_identifier = 0x040, m_data_length_code = 8, m_data = [1, 2, 3, 4, 5, 6, 7, 8]\<rparr>,
        Transmit \<lparr>m_identifier = 0x048, m_data_length_code = 8, m_data = [9, 10, 11, 12, 13, 14, 15, 16]\<rparr>,
        Transmit \<lparr>m_identifier = 0x050, m_data_length_code = 1, m_data = [193, 0, 0, 0, 0, 0, 0, 0]\<rparr>])"
proof -
  have wait: "waitAck (MsgTraits_TypeID 2 0) 2 [None, None] CANBus_new = (True, CANBus_new)"
    by (simp add: MsgTraits_TypeID_def CANBus_new_def)
  have sent: "send 1 \<lparr>tx_result = (\<lambda>n. ESP_OK), ack_polls = (\<lambda>k. [None, None])\<rparr> 2 0 2
        [1, 2, 3, 4, 5, 6, 7, 8, 9, 10, 11, 12, 13, 14, 15, 16] CANBus_new =
     Some (ESP_OK, CANBus_new,
       [Transmit \<lparr>m_identifier = 0x040, m_data_length_code = 8, m_data = [1, 2, 3, 4, 5, 6, 7, 8]\<rparr>,
        Transmit \<lparr>m_identifier = 0x048, m_data_length_code = 8, m_data = [9, 10, 11, 12, 13, 14, 15, 16]\<rparr>,
        Transmit \<lparr>m_identifier = 0x050, m_data_length_code = 1, m_data = [193, 0, 0, 0, 0, 0, 0, 0]\<rparr>])"
    unfolding send_def Let_def crc8_one_to_sixteen
    by (simp add: MsgTraits_TypeID_def send_fragments.simps fragment_def buildId_def CANBus_new_def)
       (simp add: numeral_eq_Suc)
  show ?thesis
    by (intro conjI) (rule wait, rule sent)
qed

section \<open>Send path: retries\<close>

text \<open>
  Claim C2 says that with retry limit 2 and no acknowledgment a multi-frame send makes 3
  passes, calls the error callback and fails. On a freshly constructed endpoint with
  retry limit 2 and an error callback, the code does not: the type that \<open>send\<close> waits for is
  \<open>MsgTraits<T, 0>::TypeID\<close>, which is 0, and the slot starts at 0, so the first check of the
  first wait succeeds. A 9-byte message (declared with ID 1, priority 3, to address 5) is
  sent in one pass of two frames and \<open>send\<close> returns \<open>ESP_OK\<close>; no acknowledgment is ever
  stored and the error callback is not called.
\<close>

theorem send_succeeds_without_any_ack:
  "send 1 \<lparr>tx_result = (\<lambda>n. ESP_OK), ack_polls = (\<lambda>k. [None])\<rparr> 1 3 5 [1, 2, 3, 4, 5, 6, 7, 8, 9]
        (onError 0 (setRetryLimit 2 CANBus_new)) =
   Some (ESP_OK, onError 0 (setRetryLimit 2 CANBus_new),
         [Transmit \<lparr>m_identifier = 0x6A0, m_data_length_code = 8, m_data = [1, 2, 3, 4, 5, 6, 7, 8]\<rparr>,
          Transmit \<lparr>m_identifier = 0x6B0, m_data_length_code = 2, m_data = [9, 217, 0, 0, 0, 0, 0, 0]\<rparr>])"
  unfolding send_def Let_def crc8_one_to_nine
  by (simp add: MsgTraits_TypeID_def send_fragments.simps fragment_def buildId_def
      onError_def setRetryLimit_def CANBus_new_def)
     (simp add: numeral_eq_Suc)

text \<open>
  It is so for every message longer than 8 bytes, on every endpoint with a retry limit
  above 0 whose slot holds 0, as soon as the first wait makes one check before anything
  is stored.
\<close>

lemma send_acknowledged_by_initial_slot:
  assumes "8 < length msg" and "retryLimit s \<noteq> 0" and "pendingAck s = 0"
      and "\<forall>n. tx_result env n = ESP_OK" and "ack_polls env 0 = None # ws"
  shows "send (Suc fuel) env ID prio addr msg s =
           Some (ESP_OK, s,
                 map Transmit (fragments prio addr 0 True (msg @ [crc8 msg (length msg)]) 0))"
proof -
  have same: "s\<lparr>pendingAck := 0\<rparr> = s"
    using assms(3) by (cases s) simp
  have "send_fragments (tx_result env) prio addr 0 True (msg @ [crc8 msg (length msg)]) 0 0 =
        (ESP_OK, 0 + length (fragments prio addr 0 True (msg @ [crc8 msg (length msg)]) 0),
         fragments prio addr 0 True (msg @ [crc8 msg (length msg)]) 0)"
    using assms(4) by (rule send_fragments_ok)
  then show ?thesis
    using assms(1,2,3,5) by (simp add: send_def Let_def MsgTraits_TypeID_def same)
qed

text \<open>
  The retry loop itself counts as the claim says. When the slot holds a value that is not
  the awaited type (here 4, left by an acknowledgment for another message) and nothing
  arrives, the same send makes 3 passes, calls the error callback once with the type it
  waited for and the address, and returns \<open>ESP_FAIL\<close>.
\<close>

lemma retries_run_when_slot_holds_another_value:
  "send (Suc (Suc (Suc 0))) \<lparr>tx_result = (\<lambda>n. ESP_OK), ack_polls = (\<lambda>k. [None])\<rparr> 1 3 5
        [1, 2, 3, 4, 5, 6, 7, 8, 9]
        (onError 0 (setRetryLimit 2 CANBus_new)\<lparr>pendingAck := 4\<rparr>) =
   Some (ESP_FAIL, onError 0 (setRetryLimit 2 CANBus_new)\<lparr>pendingAck := 4\<rparr>,
         [Transmit \<lparr>m_identifier = 0x6A0, m_data_length_code = 8, m_data = [1, 2, 3, 4, 5, 6, 7, 8]\<rparr>,
          Transmit \<lparr>m_identifier = 0x6B0, m_data_length_code = 2, m_data = [9, 217, 0, 0, 0, 0, 0, 0]\<rparr>,
          Transmit \<lparr>m_identifier = 0x6A0, m_data_length_code = 8, m_data = [1, 2, 3, 4, 5, 6, 7, 8]\<rparr>,
          Transmit \<lparr>m_identifier = 0x6B0, m_data_length_code = 2, m_data = [9, 217, 0, 0, 0, 0, 0, 0]\<rparr>,
          Transmit \<lparr>m_identifier = 0x6A0, m_data_length_code = 8, m_data = [1, 2, 3, 4, 5, 6, 7, 8]\<rparr>,
          Transmit \<lparr>m_identifier = 0x6B0, m_data_length_code = 2, m_data = [9, 217, 0, 0, 0, 0, 0, 0]\<rparr>,
          ErrorCall 0 0 5])"
  unfolding send_def Let_def crc8_one_to_nine
  by (simp add: MsgTraits_TypeID_def send_fragments.simps fragment_def buildId_def
      onError_def setRetryLimit_def CANBus_new_def)
     (simp add: numeral_eq_Suc)

section \<open>Fragmentation and reassembly\<close>

text \<open>What \<open>handleReceive\<close> does with each kind of frame that the fragment loop builds.\<close>

lemma buildId_base: "buildId prio addr seq type AND NOT 0x18 = buildId prio addr 0 type"
proof -
  have e: "(0x18 :: u32) = push_bit 3 (mask 2)"
    by (simp add: mask_eq_exp_minus_1)
  show ?thesis
    unfolding buildId_def field_masks e
    by (rule bit_word_eqI) (auto simp add: bit_simps)
qed

lemma buildId_base': "buildId prio addr seq type AND - 25 = buildId prio addr 0 type"
  using buildId_base [of prio addr seq type] by simp

lemma frame_bytes_fragment:
  "frame_bytes (fragment prio addr type fragmented buf offset) = take 8 (drop offset buf)"
proof -
  define chunk where "chunk = min 8 (length buf - offset)"
  have "chunk < 256"
    by (simp add: chunk_def)
  then have u: "unat (of_nat chunk :: u8) = chunk"
    by (simp add: unat_of_nat)
  have l: "length (take chunk (drop offset buf)) = chunk"
    by (simp add: chunk_def)
  have "frame_bytes (fragment prio addr type fragmented buf offset) =
        take chunk (take chunk (drop offset buf) @ replicate (8 - chunk) 0)"
    by (simp add: frame_bytes_def fragment_def Let_def chunk_def [symmetric] u)
  also have "\<dots> = take chunk (drop offset buf)"
    using l by simp
  also have "\<dots> = take 8 (drop offset buf)"
    by (simp add: chunk_def min_def)
  finally show ?thesis .
qed

lemma fragment_identifier:
  "m_identifier (fragment prio addr type fragmented buf offset) =
     buildId prio addr
       (if \<not> fragmented then SINGLE
        else if offset = 0 then START
        else if offset + min 8 (length buf - offset) \<ge> length buf then END else MIDDLE) type"
  by (simp add: fragment_def Let_def)

lemma dispatch_fragMap [simp]: "dispatch type bytes (s\<lparr>fragMap := f\<rparr>) = dispatch type bytes s"
  by (simp add: dispatch_def)

lemma FragEntry_overwrite:
  "(e :: FragEntry)\<lparr>timestamp := t, entry_data := d\<rparr> = \<lparr>entry_data = d, timestamp = t\<rparr>"
  by (cases e) simp

lemma handleReceive_START:
  assumes "type AND 7 \<noteq> 7" and "0 < length buf"
  shows "handleReceive (Some (fragment prio addr type True buf 0)) now s =
           (s\<lparr>fragMap := (fragMap s)(buildId prio addr 0 type \<mapsto>
                 \<lparr>entry_data = take 8 buf, timestamp = now\<rparr>)\<rparr>, [])"
  using assms
  by (simp add: handleReceive_def Let_def fragment_identifier id_type_buildId id_seq_buildId
      buildId_base' append_entry_def frame_bytes_fragment FragEntry_overwrite split: option.splits)

lemma handleReceive_MIDDLE:
  assumes "type AND 7 \<noteq> 7" and "0 < offset" and "offset + 8 < length buf"
      and "fragMap s (buildId prio addr 0 type) = Some \<lparr>entry_data = d, timestamp = t0\<rparr>"
      and "\<not> expired t0 now"
  shows "handleReceive (Some (fragment prio addr type True buf offset)) now s =
           (s\<lparr>fragMap := (fragMap s)(buildId prio addr 0 type \<mapsto>
                 \<lparr>entry_data = d @ take 8 (drop offset buf), timestamp = t0\<rparr>)\<rparr>, [])"
  using assms
  by (simp add: handleReceive_def Let_def fragment_identifier id_type_buildId id_seq_buildId
      buildId_base' append_entry_def frame_bytes_fragment split: option.splits)

lemma handleReceive_END:
  assumes "type AND 7 \<noteq> 7" and "0 < offset" and "offset < length buf" and "length buf \<le> offset + 8"
      and "fragMap s (buildId prio addr 0 type) = Some \<lparr>entry_data = d, timestamp = t0\<rparr>"
      and "\<not> expired t0 now"
  shows "handleReceive (Some (fragment prio addr type True buf offset)) now s =
           (s\<lparr>fragMap := (fragMap s)(buildId prio addr 0 type := None)\<rparr>,
            if last (d @ drop offset buf) = crc8 (butlast (d @ drop offset buf)) (length (butlast (d @ drop offset buf)))
            then dispatch (type AND 7) (butlast (d @ drop offset buf)) s @ sendAck (addr AND 15) (type AND 7)
            else [])"
  using assms
  by (simp add: handleReceive_def Let_def fragment_identifier id_type_buildId id_seq_buildId id_from_buildId
      buildId_base' append_entry_def frame_bytes_fragment split: option.splits)

lemma handleReceive_SINGLE:
  assumes "type AND 7 \<noteq> 7" and "0 < length buf" and "length buf \<le> 8"
  shows "snd (handleReceive (Some (fragment prio addr type False buf 0)) now s) = dispatch (type AND 7) buf s"
  using assms
  by (simp add: handleReceive_def Let_def fragment_identifier id_type_buildId id_seq_buildId
      buildId_base' frame_bytes_fragment)



lemma receive_rest:
  assumes t: "type AND 7 \<noteq> 7"
  shows "0 < offset \<Longrightarrow> offset < length buf \<Longrightarrow>
         fragMap s (buildId prio addr 0 type) = Some \<lparr>entry_data = take offset buf, timestamp = t0\<rparr> \<Longrightarrow>
         (\<forall>j. i \<le> j \<and> j < i + length (fragments prio addr type True buf offset) \<longrightarrow> \<not> expired t0 (clock j)) \<Longrightarrow>
         snd (receive_frames clock i (fragments prio addr type True buf offset) s) =
           (if last buf = crc8 (butlast buf) (length (butlast buf))
            then dispatch (type AND 7) (butlast buf) s @ sendAck (addr AND 15) (type AND 7)
            else [])"
proof (induction "length buf - offset" arbitrary: offset i s rule: less_induct)
  case less
  let ?key = "buildId prio addr 0 type"
  let ?m = "fragment prio addr type True buf offset"
  have unfold: "fragments prio addr type True buf offset =
                  ?m # fragments prio addr type True buf (offset + min 8 (length buf - offset))"
    using less.prems(2) by (rule fragments_step)
  have now_ok: "\<not> expired t0 (clock i)"
    using less.prems(4) unfold by simp
  show ?case
  proof (cases "offset + 8 < length buf")
    case True
    then have next_offset: "offset + min 8 (length buf - offset) = offset + 8"
      by simp
    let ?s1 = "s\<lparr>fragMap := (fragMap s)(?key \<mapsto>
                 \<lparr>entry_data = take offset buf @ take 8 (drop offset buf), timestamp = t0\<rparr>)\<rparr>"
    have step: "handleReceive (Some ?m) (clock i) s = (?s1, [])"
      using t less.prems(1) True less.prems(3) now_ok by (rule handleReceive_MIDDLE)
    have grow: "take offset buf @ take 8 (drop offset buf) = take (offset + 8) buf"
      by (simp add: take_add)
    have entry: "fragMap ?s1 ?key = Some \<lparr>entry_data = take (offset + 8) buf, timestamp = t0\<rparr>"
      by (simp add: grow)
    have later: "\<forall>j. Suc i \<le> j \<and> j < Suc i + length (fragments prio addr type True buf (offset + 8)) \<longrightarrow>
                   \<not> expired t0 (clock j)"
      using less.prems(4) unfold next_offset by simp
    have "length buf - (offset + 8) < length buf - offset"
      using True by simp
    from less.hyps [OF this _ True entry later]
    have "snd (receive_frames clock (Suc i) (fragments prio addr type True buf (offset + 8)) ?s1) =
            (if last buf = crc8 (butlast buf) (length (butlast buf))
             then dispatch (type AND 7) (butlast buf) s @ sendAck (addr AND 15) (type AND 7)
             else [])"
      by simp
    then show ?thesis
      by (simp add: unfold next_offset step split: prod.splits)
  next
    case False
    then have last_chunk: "length buf \<le> offset + 8"
      by simp
    then have next_offset: "offset + min 8 (length buf - offset) = length buf"
      using less.prems(2) by simp
    have nothing_left: "fragments prio addr type True buf (length buf) = []"
      by (simp add: fragments_done)
    have whole: "take offset buf @ drop offset buf = buf"
      by simp
    have step: "handleReceive (Some ?m) (clock i) s =
           (s\<lparr>fragMap := (fragMap s)(?key := None)\<rparr>,
            if last buf = crc8 (butlast buf) (length (butlast buf))
            then dispatch (type AND 7) (butlast buf) s @ sendAck (addr AND 15) (type AND 7)
            else [])"
      using handleReceive_END [OF t less.prems(1) less.prems(2) last_chunk less.prems(3) now_ok]
      by (simp only: whole)
    show ?thesis
      by (simp add: unfold next_offset nothing_left step)
  qed
qed


lemma fragment_dlc:
  "offset < length buf \<Longrightarrow>
   unat (m_data_length_code (fragment prio addr type fragmented buf offset)) \<le> 8"
proof -
  have "min 8 (length buf - offset) < 256" by simp
  then have "unat (of_nat (min 8 (length buf - offset)) :: u8) = min 8 (length buf - offset)"
    by (simp add: unat_of_nat)
  then show ?thesis
    by (simp add: fragment_def Let_def)
qed

lemma fragments_dlc:
  "m \<in> set (fragments prio addr type fragmented buf offset) \<Longrightarrow> unat (m_data_length_code m) \<le> 8"
proof (induction "length buf - offset" arbitrary: offset rule: less_induct)
  case less
  show ?case
  proof (cases "offset < length buf")
    case True
    have "length buf - (offset + min 8 (length buf - offset)) < length buf - offset"
      using True by (auto simp add: min_def)
    from less.hyps [OF this] less.prems True show ?thesis
      by (auto simp add: fragments_step fragment_dlc)
  next
    case False
    then show ?thesis using less.prems by (simp add: fragments_done)
  qed
qed

lemma fragments_bytes:
  "concat (map frame_bytes (fragments prio addr type fragmented buf offset)) = drop offset buf"
proof (induction "length buf - offset" arbitrary: offset rule: less_induct)
  case less
  show ?case
  proof (cases "offset < length buf")
    case True
    have "length buf - (offset + min 8 (length buf - offset)) < length buf - offset"
      using True by (auto simp add: min_def)
    from less.hyps [OF this]
    have rest: "concat (map frame_bytes (fragments prio addr type fragmented buf (offset + min 8 (length buf - offset)))) =
          drop (offset + min 8 (length buf - offset)) buf" .
    have "take 8 (drop offset buf) @ drop (offset + min 8 (length buf - offset)) buf = drop offset buf"
    proof (cases "8 \<le> length buf - offset")
      case True
      then have "drop (offset + min 8 (length buf - offset)) buf = drop 8 (drop offset buf)"
        by (simp add: add.commute)
      then show ?thesis by (simp only: append_take_drop_id)
    next
      case False
      then show ?thesis by (simp add: min_def)
    qed
    then show ?thesis
      using True by (simp add: fragments_step frame_bytes_fragment rest)
  next
    case False
    then show ?thesis by (simp add: fragments_done)
  qed
qed

lemma fragments_tags_rest:
  "0 < offset \<Longrightarrow> offset < length buf \<Longrightarrow>
   map (\<lambda>m. id_seq (m_identifier m)) (fragments prio addr type True buf offset) =
     replicate (length (fragments prio addr type True buf offset) - 1) MIDDLE @ [END]"
proof (induction "length buf - offset" arbitrary: offset rule: less_induct)
  case less
  show ?case
  proof (cases "offset + 8 < length buf")
    case True
    then have next_offset: "offset + min 8 (length buf - offset) = offset + 8"
      by simp
    have "length buf - (offset + 8) < length buf - offset"
      using True by simp
    from less.hyps [OF this _ True]
    have rest: "map (\<lambda>m. id_seq (m_identifier m)) (fragments prio addr type True buf (offset + 8)) =
       replicate (length (fragments prio addr type True buf (offset + 8)) - 1) MIDDLE @ [END]"
      by simp
    have nonempty: "fragments prio addr type True buf (offset + 8) \<noteq> []"
      using True by (simp add: fragments_step)
    then have "length (fragments prio addr type True buf (offset + 8)) =
               Suc (length (fragments prio addr type True buf (offset + 8)) - 1)"
      by (cases "fragments prio addr type True buf (offset + 8)") simp_all
    then have "replicate (length (fragments prio addr type True buf (offset + 8))) MIDDLE =
          MIDDLE # replicate (length (fragments prio addr type True buf (offset + 8)) - 1) MIDDLE"
      by (metis replicate_Suc)
    then show ?thesis
      using less.prems True
      by (simp add: fragments_step [OF less.prems(2)] next_offset rest fragment_identifier id_seq_buildId)
  next
    case False
    then have "offset + min 8 (length buf - offset) = length buf"
      using less.prems(2) by simp
    then show ?thesis
      using less.prems False
      by (simp add: fragments_step [OF less.prems(2)] fragments_done fragment_identifier id_seq_buildId)
  qed
qed

text \<open>Every pass of the outer loop transmits the same frames.\<close>

lemma sent_frames_append: "sent_frames (xs @ ys) = sent_frames xs @ sent_frames ys"
  by (induction xs rule: sent_frames.induct) simp_all

lemma sent_frames_Transmit: "sent_frames (map Transmit ms) = ms"
  by (induction ms) simp_all

lemma handler_calls_append: "handler_calls (xs @ ys) = handler_calls xs @ handler_calls ys"
  by (induction xs rule: handler_calls.induct) simp_all

lemma send_attempts_passes:
  assumes ok: "\<forall>n. tx_result env n = ESP_OK"
  shows "send_attempts fuel env prio addr type fragmented buf attempts k n s = Some (r, s', evs) \<Longrightarrow>
         \<exists>passes. sent_frames evs =
                    concat (replicate (Suc passes) (fragments prio addr type fragmented buf 0))"
proof (induction fuel arbitrary: attempts k n s r s' evs)
  case 0
  then show ?case by simp
next
  case (Suc fuel)
  let ?F = "fragments prio addr type fragmented buf 0"
  have pass: "send_fragments (tx_result env) prio addr type fragmented buf 0 n =
                (ESP_OK, n + length ?F, ?F)"
    using ok by (rule send_fragments_ok)
  show ?case
  proof (cases "retryLimit s = 0 \<or> \<not> fragmented")
    case True
    then have "evs = map Transmit ?F"
      using Suc.prems by (auto simp add: pass)
    then have "sent_frames evs = concat (replicate (Suc 0) ?F)"
      by (simp add: sent_frames_Transmit)
    then show ?thesis by blast
  next
    case False
    obtain acked s1 where w: "waitAck type addr (ack_polls env k) s = (acked, s1)"
      by (cases "waitAck type addr (ack_polls env k) s")
    show ?thesis
    proof (cases acked)
      case True
      then have "evs = map Transmit ?F"
        using Suc.prems False w by (auto simp add: pass)
      then have "sent_frames evs = concat (replicate (Suc 0) ?F)"
        by (simp add: sent_frames_Transmit)
      then show ?thesis by blast
    next
      case not_acked: False
      show ?thesis
      proof (cases "attempts + 1 > retryLimit s1")
        case True
        then have "evs = map Transmit ?F @
                     (case errorCb s1 of None \<Rightarrow> [] | Some cb \<Rightarrow> [ErrorCall cb type addr])"
          using Suc.prems False w not_acked by (auto simp add: pass Let_def)
        then have "sent_frames evs = concat (replicate (Suc 0) ?F)"
          by (simp add: sent_frames_append sent_frames_Transmit split: option.splits)
        then show ?thesis by blast
      next
        case False
        then obtain evs' where
          rec: "send_attempts fuel env prio addr type fragmented buf (attempts + 1) (Suc k) (n + length ?F) s1
                  = Some (r, s', evs')"
          and evs: "evs = map Transmit ?F @ evs'"
          using Suc.prems \<open>\<not> (retryLimit s = 0 \<or> \<not> fragmented)\<close> w not_acked
          by (auto simp add: pass Let_def split: option.splits)
        from Suc.IH [OF rec] obtain passes where
          "sent_frames evs' = concat (replicate (Suc passes) ?F)" by blast
        then have "sent_frames evs = concat (replicate (Suc (Suc passes)) ?F)"
          by (simp add: evs sent_frames_append sent_frames_Transmit)
        then show ?thesis by blast
      qed
    qed
  qed
qed

lemma MsgTraits_TypeID_zero: "MsgTraits_TypeID ID 0 = 0"
  by (simp add: MsgTraits_TypeID_def)

lemma handlers_onReceive: "handlers (onReceive ID sizeof_T cb rx) 0 = Some (sizeof_T, cb)"
  by (simp add: onReceive_def MsgTraits_TypeID_zero)

text \<open>
  What a receiving endpoint does with the frames of one pass, fed in order at clock
  readings none of which makes the first one expired: it dispatches the payload under
  type 0 once (and, for a fragmented message, transmits the acknowledgment).
\<close>

lemma receive_single:
  assumes "msg \<noteq> []" and "length msg \<le> 8"
  shows "snd (receive_frames clock 0 (fragments prio addr 0 False msg 0) rx) = dispatch 0 msg rx"
proof -
  have one: "fragments prio addr 0 False msg 0 = [fragment prio addr 0 False msg 0]"
    using assms by (simp add: fragments_step fragments_done)
  have "snd (handleReceive (Some (fragment prio addr 0 False msg 0)) (clock 0) rx) = dispatch 0 msg rx"
    using handleReceive_SINGLE [of 0 msg prio addr "clock 0" rx] assms by simp
  then show ?thesis
    by (simp add: one split: prod.splits)
qed

lemma receive_fragmented:
  assumes long: "8 < length msg"
      and clock: "\<forall>j < length (fragments prio addr 0 True (msg @ [crc8 msg (length msg)]) 0).
                    \<not> expired (clock 0) (clock j)"
  shows "snd (receive_frames clock 0 (fragments prio addr 0 True (msg @ [crc8 msg (length msg)]) 0) rx) =
           dispatch 0 msg rx @ sendAck (addr AND 15) 0"
proof -
  let ?buf = "msg @ [crc8 msg (length msg)]"
  let ?key = "buildId prio addr 0 0"
  let ?s1 = "rx\<lparr>fragMap := (fragMap rx)(?key \<mapsto> \<lparr>entry_data = take 8 ?buf, timestamp = clock 0\<rparr>)\<rparr>"
  have t: "(0 :: u8) AND 7 \<noteq> 7"
    by simp
  have unfold: "fragments prio addr 0 True ?buf 0 =
                  fragment prio addr 0 True ?buf 0 # fragments prio addr 0 True ?buf 8"
    using long fragments_step [of 0 ?buf prio addr 0 True] by simp
  have start: "handleReceive (Some (fragment prio addr 0 True ?buf 0)) (clock 0) rx = (?s1, [])"
    using handleReceive_START [OF t, of ?buf prio addr "clock 0" rx] by simp
  have entry: "fragMap ?s1 ?key = Some \<lparr>entry_data = take 8 ?buf, timestamp = clock 0\<rparr>"
    by simp
  have later: "\<forall>j. Suc 0 \<le> j \<and> j < Suc 0 + length (fragments prio addr 0 True ?buf 8) \<longrightarrow>
                 \<not> expired (clock 0) (clock j)"
    using clock unfold by simp
  have "snd (receive_frames clock (Suc 0) (fragments prio addr 0 True ?buf 8) ?s1) =
          (if last ?buf = crc8 (butlast ?buf) (length (butlast ?buf))
           then dispatch (0 AND 7) (butlast ?buf) ?s1 @ sendAck (addr AND 15) (0 AND 7)
           else [])"
    using receive_rest [OF t _ _ entry later] long by simp
  then have "snd (receive_frames clock (Suc 0) (fragments prio addr 0 True ?buf 8) ?s1) =
          dispatch 0 msg rx @ sendAck (addr AND 15) 0"
    by simp
  then show ?thesis
    by (simp add: unfold start split: prod.splits)
qed

lemma receive_pass:
  assumes nonempty: "msg \<noteq> []"
      and frames: "frames = fragments prio addr (MsgTraits_TypeID ID 0) (8 < length msg)
                               (if 8 < length msg then msg @ [crc8 msg (length msg)] else msg) 0"
      and clock: "\<forall>j < length frames. \<not> expired (clock 0) (clock j)"
  shows "handler_calls (snd (receive_frames clock 0 frames rx)) = handler_calls (dispatch 0 msg rx)"
proof (cases "8 < length msg")
  case True
  have f: "frames = fragments prio addr 0 True (msg @ [crc8 msg (length msg)]) 0"
    using True by (simp add: frames MsgTraits_TypeID_zero)
  have "snd (receive_frames clock 0 frames rx) = dispatch 0 msg rx @ sendAck (addr AND 15) 0"
    unfolding f using True clock [unfolded f] by (rule receive_fragmented)
  then show ?thesis
    by (simp add: handler_calls_append sendAck_def)
next
  case False
  have f: "frames = fragments prio addr 0 False msg 0"
    using False by (simp add: frames MsgTraits_TypeID_zero)
  have "snd (receive_frames clock 0 frames rx) = dispatch 0 msg rx"
    unfolding f using nonempty False by (intro receive_single) simp_all
  then show ?thesis
    by simp
qed

text \<open>
  The round trip holds when the callback of the sent message type is the one that
  \<open>onReceive\<close> registered last on the receiving endpoint: the frames of a pass have at most
  8 data bytes each, carry the payload (followed by its checksum byte when it is longer
  than 8 bytes), are tagged Single, or Start, Middle, ..., End, and make the receiver call
  that callback exactly once with exactly the payload.
\<close>

lemma roundtrip_when_registered_last:
  assumes nonempty: "msg \<noteq> []"
      and frames: "frames = fragments prio addr (MsgTraits_TypeID ID 0) (8 < length msg)
                               (if 8 < length msg then msg @ [crc8 msg (length msg)] else msg) 0"
      and clock: "\<forall>j < length frames. \<not> expired (clock 0) (clock j)"
  shows "(\<forall>m \<in> set frames. unat (m_data_length_code m) \<le> 8) \<and>
         concat (map frame_bytes frames) =
           (if length msg \<le> 8 then msg else msg @ [crc8 msg (length msg)]) \<and>
         map (\<lambda>m. id_seq (m_identifier m)) frames =
           (if length msg \<le> 8 then [SINGLE]
            else START # replicate (length frames - 2) MIDDLE @ [END]) \<and>
         handler_calls (snd (receive_frames clock 0 frames (onReceive ID (length msg) cb rx))) =
           [(cb, msg)]"
proof -
  have sizes: "\<forall>m \<in> set frames. unat (m_data_length_code m) \<le> 8"
    unfolding frames by (blast intro: fragments_dlc)
  have bytes: "concat (map frame_bytes frames) =
                 (if length msg \<le> 8 then msg else msg @ [crc8 msg (length msg)])"
    unfolding frames by (simp add: fragments_bytes)
  have called: "handler_calls (snd (receive_frames clock 0 frames (onReceive ID (length msg) cb rx))) =
                  [(cb, msg)]"
    using receive_pass [OF nonempty frames clock, of "onReceive ID (length msg) cb rx"]
    by (simp add: dispatch_def handlers_onReceive handler_call_def)
  show ?thesis
  proof (cases "8 < length msg")
    case True
    let ?buf = "msg @ [crc8 msg (length msg)]"
    have f: "frames = fragments prio addr 0 True ?buf 0"
      using True by (simp add: frames MsgTraits_TypeID_zero)
    have unfold: "fragments prio addr 0 True ?buf 0 =
                    fragment prio addr 0 True ?buf 0 # fragments prio addr 0 True ?buf 8"
      using True fragments_step [of 0 ?buf prio addr 0 True] by simp
    have "map (\<lambda>m. id_seq (m_identifier m)) (fragments prio addr 0 True ?buf 8) =
            replicate (length (fragments prio addr 0 True ?buf 8) - 1) MIDDLE @ [END]"
      using True by (intro fragments_tags_rest) simp_all
    then have tags: "map (\<lambda>m. id_seq (m_identifier m)) frames =
                       START # replicate (length frames - 2) MIDDLE @ [END]"
      by (simp add: f unfold fragment_identifier id_seq_buildId)
    show ?thesis
      using True sizes bytes tags called by simp
  next
    case False
    have f: "frames = fragments prio addr 0 False msg 0"
      using False by (simp add: frames MsgTraits_TypeID_zero)
    have one: "fragments prio addr 0 False msg 0 = [fragment prio addr 0 False msg 0]"
      using nonempty False by (simp add: fragments_step fragments_done)
    have tags: "map (\<lambda>m. id_seq (m_identifier m)) frames = [SINGLE]"
      by (simp add: f one fragment_identifier id_seq_buildId)
    show ?thesis
      using False sizes bytes tags called by simp
  qed
qed

text \<open>
  It does not hold once \<open>onReceive\<close> has registered a callback for another message type
  afterwards. Every \<open>onReceive<T>\<close> stores under \<open>MsgTraits<T, 0>::TypeID\<close>, which is 0, so the
  later registration replaces the earlier one: the callback of the sent type is never
  called; the other type's callback is called with the first bytes of the payload when
  its type is not larger, and nothing is called when it is larger.
\<close>

lemma later_registration_replaces_handler:
  assumes nonempty: "msg \<noteq> []"
      and frames: "frames = fragments prio addr (MsgTraits_TypeID ID 0) (8 < length msg)
                               (if 8 < length msg then msg @ [crc8 msg (length msg)] else msg) 0"
      and clock: "\<forall>j < length frames. \<not> expired (clock 0) (clock j)"
  shows "handler_calls (snd (receive_frames clock 0 frames
                               (onReceive ID' sizeof_other cb' (onReceive ID (length msg) cb rx)))) =
           (if length msg < sizeof_other then [] else [(cb', take sizeof_other msg)])"
  using receive_pass [OF nonempty frames clock,
          of "onReceive ID' sizeof_other cb' (onReceive ID (length msg) cb rx)"]
  by (simp add: dispatch_def handlers_onReceive handler_call_def)

text \<open>
  Claim C1 says that feeding the frames of a sent payload to \<open>handleReceive\<close> calls the
  handler registered for its type exactly once with the payload. The code does not, on
  the endpoints of the second example sketch: it registers callbacks for \<open>StatusMsg\<close> (ID 1,
  2 bytes), \<open>TempHumMsg\<close> (ID 10, 8 bytes) and \<open>ConfigMsg\<close> (ID 20, 61 bytes), in this order
  (here callbacks 1, 2 and 3), and sends a \<open>TempHumMsg\<close> with priority 1 to address 4. For
  every 8 bytes of that object, \<open>send\<close> transmits them as the one Single frame 0x298 and
  returns \<open>ESP_OK\<close>; an endpoint with the same registrations that receives this frame calls
  no callback and transmits nothing, because the handler found under type 0 is the one
  of \<open>ConfigMsg\<close>, which returns on fewer than 61 bytes.
\<close>

theorem handler_of_sent_type_not_called:
  "send 1 \<lparr>tx_result = (\<lambda>n. ESP_OK), ack_polls = (\<lambda>k. [None])\<rparr> 10 1 4
        [b0, b1, b2, b3, b4, b5, b6, b7] (onError 0 (setRetryLimit 2 CANBus_new)) =
     Some (ESP_OK, onError 0 (setRetryLimit 2 CANBus_new),
       [Transmit \<lparr>m_identifier = 0x298, m_data_length_code = 8,
                  m_data = [b0, b1, b2, b3, b4, b5, b6, b7]\<rparr>]) \<and>
   snd (handleReceive
          (Some \<lparr>m_identifier = 0x298, m_data_length_code = 8,
                 m_data = [b0, b1, b2, b3, b4, b5, b6, b7]\<rparr>)
          1000000000
          (onReceive 20 61 3 (onReceive 10 8 2 (onReceive 1 2 1 CANBus_new)))) = []"
proof -
  have sent: "send 1 \<lparr>tx_result = (\<lambda>n. ESP_OK), ack_polls = (\<lambda>k. [None])\<rparr> 10 1 4
        [b0, b1, b2, b3, b4, b5, b6, b7] (onError 0 (setRetryLimit 2 CANBus_new)) =
     Some (ESP_OK, onError 0 (setRetryLimit 2 CANBus_new),
       [Transmit \<lparr>m_identifier = 0x298, m_data_length_code = 8,
                  m_data = [b0, b1, b2, b3, b4, b5, b6, b7]\<rparr>])"
    unfolding send_def Let_def
    by (simp add: MsgTraits_TypeID_def send_fragments.simps fragment_def buildId_def
        onError_def setRetryLimit_def CANBus_new_def)
  have received: "snd (handleReceive
          (Some \<lparr>m_identifier = 0x298, m_data_length_code = 8,
                 m_data = [b0, b1, b2, b3, b4, b5, b6, b7]\<rparr>)
          1000000000
          (onReceive 20 61 3 (onReceive 10 8 2 (onReceive 1 2 1 CANBus_new)))) = []"
    by (simp add: handleReceive_def Let_def id_type_def id_seq_def id_from_def frame_bytes_def
        dispatch_def handler_call_def onReceive_def MsgTraits_TypeID_def CANBus_new_def)
  show ?thesis
    by (intro conjI) (rule sent, rule received)
qed

end
